theory Spec2Isabelle
  imports Complex_Main
begin

unbundle bit_operations_syntax

section \<open>Live video analysis loop of \<^verbatim>\<open>src/lambda/video_stream.py\<close>\<close>

text \<open>
  The theory embeds the class \<^verbatim>\<open>RekognitionVideoAnalyzer\<close>: its helper methods
  and the loop of \<^verbatim>\<open>run_video_analysis\<close>. Python integers are modelled as \<open>int\<close>.
  A Python float is modelled by the real number it denotes. The products of the
  overlay are rounded to double precision as the interpreter does. The difference of
  two readings of the clock is taken exactly: two doubles within a factor of two of
  each other, as the readings of one session are, have an exact difference in double
  precision.
  The camera, the clock, the keyboard, the JPEG encoder and the remote service are the
  environment: what each of them answers during one iteration of the loop is an input
  of that iteration. Everything the program does to the outside (printing, remote calls,
  showing a frame, releasing the camera) is recorded, in order, as a list of events.
\<close>

subsection \<open>Exceptions\<close>

text \<open>
  The exceptions that reach a handler or leave the loop. \<open>BotoCoreError\<close> stands for
  the client library's exceptions that are not a \<open>ClientError\<close> (for example a
  connection failure); \<open>cv2_error\<close> is the exception of the imaging library.
\<close>

datatype exn =
    ClientError
  | BotoCoreError
  | KeyboardInterrupt
  | ZeroDivisionError
  | KeyError
  | AttributeError
  | OverflowError
  | cv2_error

subsection \<open>Detection results\<close>

text \<open>
  The dictionaries of the service's response become records. A key that the source reads
  only by subscript is a plain field (the response always carries it); a key that the
  source reads with \<^verbatim>\<open>.get\<close> somewhere is optional, and a subscript read of it raises
  \<open>KeyError\<close> when it is absent.
\<close>

record bounding_box =
  Left :: real
  Top :: real
  Width :: real
  Height :: real

record age_range =
  Low :: "int option"
  High :: "int option"

record gender =
  gender_Value :: "string option"
  gender_Confidence :: "real option"

record emotion =
  emotion_Type :: string
  emotion_Confidence :: real

record face_detail =
  BoundingBox :: bounding_box
  Confidence :: "real option"
  AgeRange :: "age_range option"
  Gender :: "gender option"
  Emotions :: "emotion list option"

record label_detail =
  Name :: string
  label_Confidence :: real

subsection \<open>Frames and drawing\<close>

text \<open>
  A frame is the array delivered by the camera: its shape (height, width), its pixel
  buffer, and the drawing calls applied to the buffer so far, oldest first. The effect
  of a drawing primitive on the pixels belongs to the imaging library; the model keeps
  the calls themselves, with the arguments the source passes.
\<close>

datatype caption =
    FaceText real                \<comment> \<open>\<^verbatim>\<open>f'Face: {confidence:.1f}%'\<close>\<close>
  | AgeText int int              \<comment> \<open>\<^verbatim>\<open>f"Age: {Low}-{High}"\<close>\<close>
  | InstructionText              \<comment> \<open>\<^verbatim>\<open>"Press SPACE to analyze, Q to quit"\<close>\<close>
  | FrameText int                \<comment> \<open>\<^verbatim>\<open>f"Frame: {frame_count}"\<close>\<close>

type_synonym color = "nat \<times> nat \<times> nat"

datatype draw_call =
    rectangle "int \<times> int" "int \<times> int" color nat
  | putText caption "int \<times> int" real color nat

record frame =
  shape :: "nat \<times> nat"
  pixels :: "nat list"
  drawn :: "draw_call list"

definition draw :: "draw_call \<Rightarrow> frame \<Rightarrow> frame" where
  "draw c f = f\<lparr>drawn := drawn f @ [c]\<rparr>"

text \<open>
  Double precision. The number of binary digits of a natural number, and with it the
  exponent \<open>e\<close> of a positive real \<open>x\<close>, the one with \<open>2^e \<le> x < 2^(e+1)\<close>.
\<close>

fun bit_length :: "nat \<Rightarrow> nat" where
  "bit_length n = (if n = 0 then 0 else Suc (bit_length (n div 2)))"

definition floor_log2 :: "real \<Rightarrow> int" where
  "floor_log2 x =
     (if 1 \<le> x then int (bit_length (nat \<lfloor>x\<rfloor>)) - 1
      else - int (bit_length (nat (\<lceil>1 / x\<rceil> - 1))))"

definition pow2 :: "int \<Rightarrow> real" where
  "pow2 e = (if 0 \<le> e then 2 ^ nat e else 1 / 2 ^ nat (- e))"

text \<open>Rounding to the nearest integer, a tie going to the even one.\<close>

definition round_half_even :: "real \<Rightarrow> int" where
  "round_half_even x =
     (let f = \<lfloor>x\<rfloor>; d = x - of_int f
      in if d < 1 / 2 then f
         else if 1 / 2 < d then f + 1
         else if even f then f else f + 1)"

text \<open>
  The double nearest to a real, as IEEE 754 rounds the exact result of an operation
  and as a decimal literal is read: 53 significant binary digits, the exponent not
  below that of the subnormal numbers, a tie going to the even significand. The
  exponent is not bounded above here: a result of magnitude \<open>2^1024\<close> or more is the
  overflow to infinity, which the caller tests.
\<close>

definition round_double :: "real \<Rightarrow> real" where
  "round_double x =
     (if x = 0 then 0
      else (let e = max (floor_log2 \<bar>x\<bar>) (- 1022) - 52
            in of_int (round_half_even (x / pow2 e)) * pow2 e))"

text \<open>Python's \<^verbatim>\<open>int(x)\<close> on a finite float: truncation towards zero.\<close>

definition py_int :: "real \<Rightarrow> int" where
  "py_int x = (if 0 \<le> x then \<lfloor>x\<rfloor> else \<lceil>x\<rceil>)"

text \<open>
  \<^verbatim>\<open>int(c * n)\<close> for a float \<open>c\<close> and a dimension \<open>n\<close> of the frame: the dimension
  is converted to a double (exactly, an array dimension being far below \<open>2^53\<close>), the
  product is rounded to a double, and \<^verbatim>\<open>int\<close> truncates it; on a product that
  overflowed to infinity \<^verbatim>\<open>int\<close> raises \<open>OverflowError\<close>.
\<close>

definition int_of_product :: "real \<Rightarrow> nat \<Rightarrow> exn + int" where
  "int_of_product c n =
     (let p = round_double (c * real n)
      in if 2 ^ 1024 \<le> \<bar>p\<bar> then Inl OverflowError else Inr (py_int p))"

text \<open>Lines 69 to 72: the pixel values \<open>(x, y, w, h)\<close> of a normalized box.\<close>

definition box_pixels :: "bounding_box \<Rightarrow> nat \<times> nat \<Rightarrow> exn + int \<times> int \<times> int \<times> int" where
  "box_pixels box shp =
     (let height = fst shp; width = snd shp in
      case int_of_product (Left box) width of
        Inl e \<Rightarrow> Inl e
      | Inr x \<Rightarrow>
         (case int_of_product (Top box) height of
            Inl e \<Rightarrow> Inl e
          | Inr y \<Rightarrow>
             (case int_of_product (Width box) width of
                Inl e \<Rightarrow> Inl e
              | Inr w \<Rightarrow>
                 (case int_of_product (Height box) height of
                    Inl e \<Rightarrow> Inl e
                  | Inr h \<Rightarrow> Inr (x, y, w, h)))))"

text \<open>Python's truth value of the optional age range: absent or an empty dictionary is false.\<close>

definition truthy_age :: "age_range option \<Rightarrow> bool" where
  "truthy_age a = (case a of None \<Rightarrow> False | Some r \<Rightarrow> Low r \<noteq> None \<or> High r \<noteq> None)"

text \<open>The body of the loop of \<^verbatim>\<open>draw_face_boxes\<close>, for one face.\<close>

definition draw_face :: "frame \<Rightarrow> face_detail \<Rightarrow> exn + frame" where
  "draw_face frm face =
     (let box = BoundingBox face in
      case box_pixels box (shape frm) of
        Inl e \<Rightarrow> Inl e
      | Inr (x, y, w, h) \<Rightarrow>
         (let frm1 = draw (rectangle (x, y) (x + w, y + h) (0, 255, 0) 2) frm;
              confidence = (case Confidence face of None \<Rightarrow> 0 | Some c \<Rightarrow> c);
              frm2 = draw (putText (FaceText confidence) (x, y - 10) (5 / 10) (0, 255, 0) 1) frm1;
              age = AgeRange face
          in if truthy_age age then
               (case Low (the age) of
                  None \<Rightarrow> Inl KeyError
                | Some lo \<Rightarrow>
                   (case High (the age) of
                      None \<Rightarrow> Inl KeyError
                    | Some hi \<Rightarrow>
                        Inr (draw (putText (AgeText lo hi) (x, y + h + 20) (4 / 10)
                                     (0, 255, 0) 1) frm2)))
             else Inr frm2))"

fun draw_face_boxes :: "frame \<Rightarrow> face_detail list \<Rightarrow> exn + frame" where
  "draw_face_boxes frm [] = Inr frm"
| "draw_face_boxes frm (face # faces) =
     (case draw_face frm face of
        Inl e \<Rightarrow> Inl e
      | Inr frm' \<Rightarrow> draw_face_boxes frm' faces)"

subsection \<open>What the program prints\<close>

datatype message =
    ErrorDetectingFaces
  | ErrorDetectingLabels
  | FrameAnalysisHeader int
  | DetectedFaces nat
  | FaceLine nat real
  | AgeLine "int option" "int option"
  | GenderLine "string option" real
  | EmotionLine string real
  | NoFacesDetected
  | DetectedLabels nat
  | LabelLine string real
  | NoObjectsDetected
  | Separator
  | CouldNotOpenWebcam
  | WebcamInitialized
  | StartingVideoAnalysis
  | PressQToQuitSpaceToAnalyze
  | AutomaticAnalysisEvery int
  | CouldNotReadFrame
  | AnalyzingFrame int
  | AnalysisStoppedByUser
  | ResourcesCleanedUp

subsection \<open>The detection client\<close>

type_synonym bytes = "nat list"

record faces_request =
  faces_Image :: bytes
  Attributes :: "string list"

record labels_request =
  labels_Image :: bytes
  MaxLabels :: int
  MinConfidence :: real

record faces_response =
  FaceDetails :: "face_detail list option"

record labels_response =
  Labels :: "label_detail list option"

text \<open>
  The remote service as the client object sees it: each operation answers a request
  with a response or raises.
\<close>

record rekognition =
  client_detect_faces :: "faces_request \<Rightarrow> exn + faces_response"
  client_detect_labels :: "labels_request \<Rightarrow> exn + labels_response"

datatype event =
    print message
  | remote_detect_faces faces_request
  | remote_detect_labels labels_request
  | imshow frame
  | cap_release
  | destroyAllWindows

definition detect_faces :: "rekognition \<Rightarrow> bytes \<Rightarrow> event list \<times> (exn + face_detail list)" where
  "detect_faces client image_bytes =
     (let request = \<lparr>faces_Image = image_bytes, Attributes = [''ALL'']\<rparr> in
      case client_detect_faces client request of
        Inr response \<Rightarrow>
          ([remote_detect_faces request],
           Inr (case FaceDetails response of None \<Rightarrow> [] | Some fs \<Rightarrow> fs))
      | Inl e \<Rightarrow>
          if e = ClientError
          then ([remote_detect_faces request, print ErrorDetectingFaces], Inr [])
          else ([remote_detect_faces request], Inl e))"

definition detect_labels :: "rekognition \<Rightarrow> bytes \<Rightarrow> event list \<times> (exn + label_detail list)" where
  "detect_labels client image_bytes =
     (let request = \<lparr>labels_Image = image_bytes, MaxLabels = 10, MinConfidence = 70\<rparr> in
      case client_detect_labels client request of
        Inr response \<Rightarrow>
          ([remote_detect_labels request],
           Inr (case Labels response of None \<Rightarrow> [] | Some ls \<Rightarrow> ls))
      | Inl e \<Rightarrow>
          if e = ClientError
          then ([remote_detect_labels request, print ErrorDetectingLabels], Inr [])
          else ([remote_detect_labels request], Inl e))"

subsection \<open>Reporting on the command line\<close>

text \<open>\<^verbatim>\<open>max(emotions, key=...)\<close>: the first element of greatest confidence.\<close>

fun max_by_confidence :: "emotion \<Rightarrow> emotion list \<Rightarrow> emotion" where
  "max_by_confidence m [] = m"
| "max_by_confidence m (e # es) =
     max_by_confidence (if emotion_Confidence m < emotion_Confidence e then e else m) es"

definition print_face :: "nat \<Rightarrow> face_detail \<Rightarrow> message list" where
  "print_face i face =
     (let confidence = (case Confidence face of None \<Rightarrow> 0 | Some c \<Rightarrow> c);
          emotions = (case Emotions face of None \<Rightarrow> [] | Some es \<Rightarrow> es)
      in [FaceLine i confidence]
         @ (if truthy_age (AgeRange face)
            then [AgeLine (Low (the (AgeRange face))) (High (the (AgeRange face)))] else [])
         @ (case Gender face of
              None \<Rightarrow> []
            | Some g \<Rightarrow>
                if gender_Value g \<noteq> None \<or> gender_Confidence g \<noteq> None
                then [GenderLine (gender_Value g)
                        (case gender_Confidence g of None \<Rightarrow> 0 | Some c \<Rightarrow> c)]
                else [])
         @ (case emotions of
              [] \<Rightarrow> []
            | e # es \<Rightarrow>
                (let top_emotion = max_by_confidence e es
                 in [EmotionLine (emotion_Type top_emotion) (emotion_Confidence top_emotion)])))"

fun print_faces :: "nat \<Rightarrow> face_detail list \<Rightarrow> message list" where
  "print_faces i [] = []"
| "print_faces i (face # faces) = print_face i face @ print_faces (Suc i) faces"

definition print_detection_results ::
    "face_detail list \<Rightarrow> label_detail list \<Rightarrow> int \<Rightarrow> message list" where
  "print_detection_results faces labels frame_count =
     [FrameAnalysisHeader frame_count]
     @ (if faces \<noteq> [] then DetectedFaces (length faces) # print_faces 1 faces
        else [NoFacesDetected])
     @ (if labels \<noteq> []
        then DetectedLabels (length labels)
             # map (\<lambda>label. LabelLine (Name label) (label_Confidence label)) (take 5 labels)
        else [NoObjectsDetected])
     @ [Separator]"

subsection \<open>One iteration of the loop\<close>

record loop_state =
  frame_count :: int
  last_analysis_time :: real

text \<open>
  What the environment answers during one iteration: the camera's \<^verbatim>\<open>cap.read()\<close>,
  the clock's \<^verbatim>\<open>time.time()\<close>, the keyboard's \<^verbatim>\<open>cv2.waitKey(1)\<close> (\<open>-1\<close> when no
  key was pressed), the encoder's \<^verbatim>\<open>cv2.imencode\<close> (a success flag and a buffer) and
  the remote service. The buffer of the encoder is an array of bytes when it succeeds
  and the empty tuple when it fails. The calls that block (the camera, the encoder, the service) may
  raise instead of answering; an interruption by the user is the exception
  \<open>KeyboardInterrupt\<close> raised by one of them.
\<close>

datatype encoded = ndarray bytes | empty_tuple

record tick_env =
  cap_read :: "exn + bool \<times> frame"
  time_now :: real
  waitKey :: int
  imencode :: "frame \<Rightarrow> exn + bool \<times> encoded"
  service :: rekognition

text \<open>
  Lines 27 and 28: the success flag of the encoder is discarded, and \<^verbatim>\<open>tobytes\<close> is
  called on the buffer whatever the flag: on the empty tuple of a failed encoding the
  call raises \<open>AttributeError\<close>.
\<close>

definition encode_image :: "tick_env \<Rightarrow> frame \<Rightarrow> exn + bytes" where
  "encode_image env frm =
     (case imencode env frm of
        Inl e \<Rightarrow> Inl e
      | Inr (_, buffer) \<Rightarrow>
          (case buffer of ndarray b \<Rightarrow> Inr b | empty_tuple \<Rightarrow> Inl AttributeError))"

definition ord_space :: int where "ord_space = 32"
definition ord_q :: int where "ord_q = 113"

text \<open>Python's \<^verbatim>\<open>%\<close> on integers: the sign follows the divisor, and a zero divisor raises.\<close>

definition py_mod :: "int \<Rightarrow> int \<Rightarrow> exn + int" where
  "py_mod a b = (if b = 0 then Inl ZeroDivisionError else Inr (a mod b))"

text \<open>
  Lines 159 to 167: the chain \<^verbatim>\<open>if / elif / elif\<close> that sets \<^verbatim>\<open>analyze_frame\<close> or
  leaves the loop. The branches are tried in the order of the source, so the modulo is
  evaluated only when the key is not the space bar, and the quit key is looked at only
  when the modulo is not zero.
\<close>

datatype trigger = Analyze bool | Quit

definition decide_trigger :: "int \<Rightarrow> int \<Rightarrow> int \<Rightarrow> exn + trigger" where
  "decide_trigger key count analyze_every_n_frames =
     (if key = ord_space then Inr (Analyze True)
      else
        (case py_mod count analyze_every_n_frames of
           Inl e \<Rightarrow> Inl e
         | Inr r \<Rightarrow>
             if r = 0 then Inr (Analyze True)
             else if key = ord_q then Inr Quit
             else Inr (Analyze False)))"

text \<open>Lines 170 to 183: the analysis of one frame, up to the drawing of the boxes.\<close>

definition analyze :: "tick_env \<Rightarrow> frame \<Rightarrow> int \<Rightarrow> event list \<times> (exn + frame)" where
  "analyze env frm count =
     (let ev0 = [print (AnalyzingFrame count)] in
      case encode_image env frm of
        Inl e \<Rightarrow> (ev0, Inl e)
      | Inr image_bytes \<Rightarrow>
         (let (ev1, r1) = detect_faces (service env) image_bytes in
          case r1 of
            Inl e \<Rightarrow> (ev0 @ ev1, Inl e)
          | Inr faces \<Rightarrow>
             (let (ev2, r2) = detect_labels (service env) image_bytes in
              case r2 of
                Inl e \<Rightarrow> (ev0 @ ev1 @ ev2, Inl e)
              | Inr labels \<Rightarrow>
                 (let ev3 = map print (print_detection_results faces labels count)
                  in (ev0 @ ev1 @ ev2 @ ev3, draw_face_boxes frm faces)))))"

text \<open>Lines 188 to 191: the two captions put on every displayed frame.\<close>

definition add_instructions :: "frame \<Rightarrow> int \<Rightarrow> frame" where
  "add_instructions frm count =
     draw (putText (FrameText count) (10, 60) (5 / 10) (255, 255, 255) 1)
       (draw (putText InstructionText (10, 30) (7 / 10) (255, 255, 255) 2) frm)"

datatype control = Next | Break | Raise exn

text \<open>
  Lines 150 to 194: one iteration. The result is what was done, the state after it, and
  how the iteration ended: by falling through to the next one, by \<^verbatim>\<open>break\<close>, or by an
  exception.
\<close>

definition tick :: "int \<Rightarrow> loop_state \<Rightarrow> tick_env \<Rightarrow> event list \<times> loop_state \<times> control" where
  "tick analyze_every_n_frames st env =
     (case cap_read env of
        Inl e \<Rightarrow> ([], st, Raise e)
      | Inr (ret, frm) \<Rightarrow>
          if \<not> ret then ([print CouldNotReadFrame], st, Break)
          else
            (let st1 = st\<lparr>frame_count := frame_count st + 1\<rparr>;
                 current_time = time_now env;
                 key = waitKey env AND 0xFF
             in case decide_trigger key (frame_count st1) analyze_every_n_frames of
                  Inl e \<Rightarrow> ([], st1, Raise e)
                | Inr Quit \<Rightarrow> ([], st1, Break)
                | Inr (Analyze analyze_frame) \<Rightarrow>
                    if analyze_frame \<and> current_time - last_analysis_time st1 > 2 then
                      (case analyze env frm (frame_count st1) of
                         (ev, Inl e) \<Rightarrow> (ev, st1, Raise e)
                       | (ev, Inr frm') \<Rightarrow>
                           (ev @ [imshow (add_instructions frm' (frame_count st1))],
                            st1\<lparr>last_analysis_time := current_time\<rparr>, Next))
                    else ([imshow (add_instructions frm (frame_count st1))], st1, Next)))"

subsection \<open>The loop and the session\<close>

text \<open>
  The loop runs for as long as the environment goes on: it is run here on the answers
  of the environment for finitely many iterations, and \<open>Pending\<close> says that it has
  neither left by \<^verbatim>\<open>break\<close> nor raised when they are used up.
\<close>

datatype loop_end = Pending | Exited | Raised exn

fun while_loop :: "int \<Rightarrow> loop_state \<Rightarrow> tick_env list \<Rightarrow> event list \<times> loop_state \<times> loop_end" where
  "while_loop n st [] = ([], st, Pending)"
| "while_loop n st (env # envs) =
     (case tick n st env of
        (ev, st', Next) \<Rightarrow>
          (case while_loop n st' envs of (evs, st'', r) \<Rightarrow> (ev @ evs, st'', r))
      | (ev, st', Break) \<Rightarrow> (ev, st', Exited)
      | (ev, st', Raise e) \<Rightarrow> (ev, st', Raised e))"

text \<open>The \<^verbatim>\<open>finally\<close> block, lines 199 to 203.\<close>

definition cleanup :: "event list" where
  "cleanup = [cap_release, destroyAllWindows, print ResourcesCleanedUp]"

datatype session_end = Running | Returned | Propagated exn

text \<open>
  \<^verbatim>\<open>run_video_analysis\<close>: \<open>opened\<close> is the answer of \<^verbatim>\<open>cap.isOpened()\<close>, \<open>t0\<close> the
  clock when the session starts. A \<open>KeyboardInterrupt\<close> is handled; any other
  exception passes through the \<^verbatim>\<open>finally\<close> block to the caller.
\<close>

definition run_video_analysis ::
    "int \<Rightarrow> bool \<Rightarrow> real \<Rightarrow> tick_env list \<Rightarrow> event list \<times> loop_state \<times> session_end" where
  "run_video_analysis analyze_every_n_frames opened t0 envs =
     (if \<not> opened
      then ([print CouldNotOpenWebcam], \<lparr>frame_count = 0, last_analysis_time = t0\<rparr>, Returned)
      else
        (let startup = [print WebcamInitialized, print StartingVideoAnalysis,
                        print PressQToQuitSpaceToAnalyze,
                        print (AutomaticAnalysisEvery analyze_every_n_frames)];
             st0 = \<lparr>frame_count = 0, last_analysis_time = t0\<rparr>
         in case while_loop analyze_every_n_frames st0 envs of
              (evs, st, Pending) \<Rightarrow> (startup @ evs, st, Running)
            | (evs, st, Exited) \<Rightarrow> (startup @ evs @ cleanup, st, Returned)
            | (evs, st, Raised e) \<Rightarrow>
                if e = KeyboardInterrupt
                then (startup @ evs @ [print AnalysisStoppedByUser] @ cleanup, st, Returned)
                else (startup @ evs @ cleanup, st, Propagated e)))"

subsection \<open>Observations on a run\<close>

text \<open>The remote calls among the events of a run, in order.\<close>

fun is_remote_call :: "event \<Rightarrow> bool" where
  "is_remote_call (remote_detect_faces _) = True"
| "is_remote_call (remote_detect_labels _) = True"
| "is_remote_call _ = False"

definition remote_calls :: "event list \<Rightarrow> event list" where
  "remote_calls evs = filter is_remote_call evs"

text \<open>The frames shown among the events of a run, in order.\<close>

fun shown :: "event list \<Rightarrow> frame list" where
  "shown [] = []"
| "shown (imshow f # evs) = f # shown evs"
| "shown (_ # evs) = shown evs"

text \<open>
  The frame counts that the printed messages of a run carry, in order: the only
  messages with a frame count are the two that announce and head an analysis.
\<close>

fun printed_frame_counts :: "event list \<Rightarrow> int list" where
  "printed_frame_counts [] = []"
| "printed_frame_counts (print (AnalyzingFrame k) # evs) = k # printed_frame_counts evs"
| "printed_frame_counts (print (FrameAnalysisHeader k) # evs) = k # printed_frame_counts evs"
| "printed_frame_counts (_ # evs) = printed_frame_counts evs"

text \<open>
  A response honours the parameters of its request: no more labels than \<open>MaxLabels\<close>,
  none of a confidence below \<open>MinConfidence\<close>. This is an assumption on the remote
  service, which the program does not check.
\<close>

definition honours_request :: "labels_request \<Rightarrow> labels_response \<Rightarrow> bool" where
  "honours_request request response =
     (case Labels response of
        None \<Rightarrow> True
      | Some ls \<Rightarrow>
          int (length ls) \<le> MaxLabels request
          \<and> list_all (\<lambda>l. MinConfidence request \<le> label_Confidence l) ls)"

subsection \<open>Concrete inputs\<close>

definition frame0 :: frame where
  "frame0 = \<lparr>shape = (480, 640), pixels = [], drawn = []\<rparr>"

text \<open>
  The box of the specification's example: its coordinates are the doubles that the
  decimals 0.1, 0.2, 0.3 and 0.4 denote.
\<close>

definition box0 :: bounding_box where
  "box0 = \<lparr>Left = round_double (1 / 10), Top = round_double (1 / 5),
            Width = round_double (3 / 10), Height = round_double (2 / 5)\<rparr>"

definition face0 :: face_detail where
  "face0 = \<lparr>BoundingBox = box0,
             Confidence = Some 99, AgeRange = None, Gender = None, Emotions = None\<rparr>"

definition label0 :: label_detail where
  "label0 = \<lparr>Name = ''Person'', label_Confidence = 98\<rparr>"

definition service_ok :: rekognition where
  "service_ok = \<lparr>client_detect_faces = (\<lambda>_. Inr \<lparr>FaceDetails = Some [face0]\<rparr>),
                  client_detect_labels = (\<lambda>_. Inr \<lparr>Labels = Some [label0]\<rparr>)\<rparr>"

definition service_failing :: "exn \<Rightarrow> rekognition" where
  "service_failing e =
     \<lparr>client_detect_faces = (\<lambda>_. Inl e), client_detect_labels = (\<lambda>_. Inl e)\<rparr>"

text \<open>A service whose face detection answers and whose label detection fails.\<close>

definition service_labels_failing :: rekognition where
  "service_labels_failing =
     \<lparr>client_detect_faces = (\<lambda>_. Inr \<lparr>FaceDetails = Some [face0]\<rparr>),
      client_detect_labels = (\<lambda>_. Inl ClientError)\<rparr>"

text \<open>
  An iteration in which the camera delivers a 640 by 480 frame, the clock reads 10, no
  key is pressed, the encoder succeeds and the service detects one face and one label.
\<close>

definition env0 :: tick_env where
  "env0 = \<lparr>cap_read = Inr (True, frame0), time_now = 10, waitKey = - 1,
           imencode = (\<lambda>_. Inr (True, ndarray [255, 216])), service = service_ok\<rparr>"

text \<open>An encoder that raises on every frame.\<close>

definition imencode_raising :: "frame \<Rightarrow> exn + bool \<times> encoded" where
  "imencode_raising frm = Inl cv2_error"

definition st0 :: loop_state where
  "st0 = \<lparr>frame_count = 0, last_analysis_time = 0\<rparr>"

section \<open>Properties\<close>

subsection \<open>Double precision\<close>

declare bit_length.simps [simp del]

lemma bit_length_0 [simp]: "bit_length 0 = 0"
  by (simp add: bit_length.simps)

lemma bit_length_1 [simp]: "bit_length (Suc 0) = Suc 0"
  by (simp add: bit_length.simps)

lemma bit_length_Bit0 [simp]: "bit_length (numeral (Num.Bit0 k)) = Suc (bit_length (numeral k))"
  by (subst bit_length.simps) simp

lemma bit_length_Bit1 [simp]: "bit_length (numeral (Num.Bit1 k)) = Suc (bit_length (numeral k))"
  by (subst bit_length.simps) simp

lemma bit_length_bounds:
  "0 < n \<Longrightarrow> 2 ^ (bit_length n - 1) \<le> n \<and> n < 2 ^ bit_length n"
proof (induction n rule: bit_length.induct)
  case (1 n)
  show ?case
  proof (cases "n = 1")
    case True
    then show ?thesis by simp
  next
    case False
    with "1.prems" have pos: "0 < n div 2" by simp
    let ?b = "bit_length (n div 2)"
    from "1.IH" pos "1.prems" have lo: "2 ^ (?b - 1) \<le> n div 2" and hi: "n div 2 < 2 ^ ?b"
      by simp_all
    from hi pos have bpos: "0 < ?b" by (cases "?b") simp_all
    have bl: "bit_length n = Suc ?b"
      using "1.prems" by (subst bit_length.simps) simp
    from bpos have "(2::nat) ^ ?b = 2 * 2 ^ (?b - 1)" by (cases "?b") simp_all
    with lo have "2 ^ ?b \<le> 2 * (n div 2)" by simp
    then have "2 ^ ?b \<le> n" by linarith
    moreover from hi have "n < 2 * 2 ^ ?b" by linarith
    ultimately show ?thesis using bl by simp
  qed
qed

lemma pow2_pos: "0 < pow2 e"
  by (simp add: pow2_def)

lemma pow2_powi: "pow2 e = 2 powi e"
  by (simp add: pow2_def power_int_def power_one_over)

lemma floor_log2_bounds:
  assumes "0 < x"
  shows "pow2 (floor_log2 x) \<le> x \<and> x < pow2 (floor_log2 x + 1)"
proof (cases "1 \<le> x")
  case True
  let ?n = "nat \<lfloor>x\<rfloor>"
  from True have n: "0 < ?n" by simp
  from bit_length_bounds [OF n]
  have lo: "2 ^ (bit_length ?n - 1) \<le> ?n" and hi: "?n < 2 ^ bit_length ?n" by simp_all
  from hi n have b: "0 < bit_length ?n" by (cases "bit_length ?n") simp_all
  have fl: "floor_log2 x = int (bit_length ?n) - 1"
    using True by (simp add: floor_log2_def)
  from b have e1: "pow2 (floor_log2 x) = 2 ^ (bit_length ?n - 1)"
    by (simp add: fl pow2_def nat_diff_distrib')
  have e2: "pow2 (floor_log2 x + 1) = 2 ^ bit_length ?n"
    by (simp add: fl pow2_def)
  have nreal: "real ?n = of_int \<lfloor>x\<rfloor>" using True by simp
  from lo have "real (2 ^ (bit_length ?n - 1)) \<le> real ?n" by (rule of_nat_mono)
  then have "2 ^ (bit_length ?n - 1) \<le> real ?n" by simp
  also have "real ?n \<le> x" unfolding nreal by (rule of_int_floor_le)
  finally have A: "pow2 (floor_log2 x) \<le> x" using e1 by simp
  from hi have "Suc ?n \<le> 2 ^ bit_length ?n" by (rule Suc_leI)
  then have "real (Suc ?n) \<le> real (2 ^ bit_length ?n)" by (rule of_nat_mono)
  then have "real ?n + 1 \<le> 2 ^ bit_length ?n" by simp
  moreover have "x < real ?n + 1" unfolding nreal by linarith
  ultimately have B: "x < pow2 (floor_log2 x + 1)" using e2 by simp
  from A B show ?thesis ..
next
  case False
  with assms have x1: "x < 1" by simp
  let ?m = "nat (\<lceil>1 / x\<rceil> - 1)"
  from assms x1 have inv: "1 < 1 / x" by simp
  then have c2: "2 \<le> \<lceil>1 / x\<rceil>" by linarith
  then have m: "0 < ?m" by simp
  from bit_length_bounds [OF m]
  have lo: "2 ^ (bit_length ?m - 1) \<le> ?m" and hi: "?m < 2 ^ bit_length ?m" by simp_all
  from hi m have b: "0 < bit_length ?m" by (cases "bit_length ?m") simp_all
  have fl: "floor_log2 x = - int (bit_length ?m)"
    using False by (simp add: floor_log2_def)
  from b have e1: "pow2 (floor_log2 x) = 1 / 2 ^ bit_length ?m"
    by (simp add: fl pow2_def)
  from b have e2: "pow2 (floor_log2 x + 1) = 1 / 2 ^ (bit_length ?m - 1)"
    by (cases "bit_length ?m") (simp_all add: fl pow2_def)
  from c2 have "0 \<le> \<lceil>1 / x\<rceil> - 1" by linarith
  then have "real ?m = of_int (\<lceil>1 / x\<rceil> - 1)" by (rule of_nat_nat)
  then have mreal: "real ?m = of_int \<lceil>1 / x\<rceil> - 1" by simp
  from hi have "Suc ?m \<le> 2 ^ bit_length ?m" by (rule Suc_leI)
  then have "real (Suc ?m) \<le> real (2 ^ bit_length ?m)" by (rule of_nat_mono)
  then have "real ?m + 1 \<le> 2 ^ bit_length ?m" by simp
  moreover have "1 / x \<le> real ?m + 1" unfolding mreal by linarith
  ultimately have "1 / x \<le> 2 ^ bit_length ?m" by linarith
  then have A: "1 / 2 ^ bit_length ?m \<le> x"
    using assms by (simp add: field_simps)
  from lo have "real (2 ^ (bit_length ?m - 1)) \<le> real ?m" by (rule of_nat_mono)
  then have "2 ^ (bit_length ?m - 1) \<le> real ?m" by simp
  moreover have "real ?m < 1 / x" unfolding mreal by linarith
  ultimately have "2 ^ (bit_length ?m - 1) < 1 / x" by linarith
  then have B: "x < 1 / 2 ^ (bit_length ?m - 1)"
    using assms by (simp add: field_simps)
  from A B e1 e2 show ?thesis by simp
qed

lemma round_half_even_nearest: "\<bar>real_of_int (round_half_even x) - x\<bar> \<le> 1 / 2"
  unfolding round_half_even_def Let_def by (auto; linarith)

lemma round_double_error:
  assumes "pow2 (- 1022) \<le> \<bar>x\<bar>"
  shows "\<bar>round_double x - x\<bar> \<le> \<bar>x\<bar> / 2 ^ 53"
proof -
  from assms pow2_pos [of "- 1022"] have pos: "0 < \<bar>x\<bar>" by linarith
  then have nz: "x \<noteq> 0" by simp
  let ?f = "floor_log2 \<bar>x\<bar>"
  from floor_log2_bounds [OF pos] have lo: "pow2 ?f \<le> \<bar>x\<bar>" and hi: "\<bar>x\<bar> < pow2 (?f + 1)"
    by simp_all
  have "- 1022 \<le> ?f"
  proof (rule ccontr)
    assume "\<not> - 1022 \<le> ?f"
    then have "?f + 1 \<le> - 1022" by simp
    then have "pow2 (?f + 1) \<le> pow2 (- 1022)"
      unfolding pow2_powi by (intro power_int_increasing) simp_all
    with hi assms show False by linarith
  qed
  then have e: "max ?f (- 1022) - 52 = ?f - 52" by simp
  let ?q = "pow2 (?f - 52)"
  have q: "?q = pow2 ?f / 2 ^ 52"
    unfolding pow2_powi by (simp add: power_int_diff)
  have qpos: "0 < ?q" by (rule pow2_pos)
  have rd: "round_double x = of_int (round_half_even (x / ?q)) * ?q"
    using nz e by (simp add: round_double_def Let_def)
  have "\<bar>round_double x - x\<bar> = \<bar>of_int (round_half_even (x / ?q)) - x / ?q\<bar> * ?q"
  proof -
    have "round_double x - x = (of_int (round_half_even (x / ?q)) - x / ?q) * ?q"
      using qpos by (simp add: rd field_simps)
    then show ?thesis using qpos by (simp add: abs_mult)
  qed
  also have "\<dots> \<le> 1 / 2 * ?q"
    using round_half_even_nearest [of "x / ?q"] qpos by (intro mult_right_mono) simp_all
  also have "\<dots> = pow2 ?f / 2 ^ 53" by (simp add: q)
  also have "\<dots> \<le> \<bar>x\<bar> / 2 ^ 53" using lo by (simp add: divide_right_mono)
  finally show ?thesis .
qed

lemmas double_defs = round_double_def floor_log2_def pow2_def round_half_even_def Let_def

lemma left0: "int_of_product (round_double (1 / 10)) 640 = Inr 64"
  by (simp add: int_of_product_def py_int_def double_defs)

lemma top0: "int_of_product (round_double (1 / 5)) 480 = Inr 96"
  by (simp add: int_of_product_def py_int_def double_defs)

lemma width0: "int_of_product (round_double (3 / 10)) 640 = Inr 192"
  by (simp add: int_of_product_def py_int_def double_defs)

lemma height0: "int_of_product (round_double (2 / 5)) 480 = Inr 192"
  by (simp add: int_of_product_def py_int_def double_defs)

lemma box_pixels_box0: "box_pixels box0 (480, 640) = Inr (64, 96, 192, 192)"
  unfolding box_pixels_def box0_def
  by (simp add: left0 top0 width0 height0 del: One_nat_def)

lemma add_instructions_frame0:
  "add_instructions frame0 c =
     frame0\<lparr>drawn := [putText InstructionText (10, 30) (7 / 10) (255, 255, 255) 2,
                          putText (FrameText c) (10, 60) (5 / 10) (255, 255, 255) 1]\<rparr>"
  by (simp add: add_instructions_def draw_def frame0_def)

lemmas example_defs =
  frame0_def face0_def label0_def service_ok_def service_failing_def
  service_labels_failing_def env0_def st0_def imencode_raising_def

lemmas tick_defs =
  tick_def decide_trigger_def py_mod_def ord_space_def ord_q_def analyze_def
  encode_image_def detect_faces_def detect_labels_def print_detection_results_def
  add_instructions_def draw_def print_face_def truthy_age_def draw_face_def
  box_pixels_box0

subsection \<open>Helper facts on the events of an iteration\<close>

lemma remote_calls_append [simp]: "remote_calls (xs @ ys) = remote_calls xs @ remote_calls ys"
  by (simp add: remote_calls_def)

lemma remote_calls_simps [simp]:
  "remote_calls [] = []"
  "remote_calls (print m # evs) = remote_calls evs"
  "remote_calls (imshow f # evs) = remote_calls evs"
  "remote_calls (remote_detect_faces q # evs) = remote_detect_faces q # remote_calls evs"
  "remote_calls (remote_detect_labels r # evs) = remote_detect_labels r # remote_calls evs"
  by (simp_all add: remote_calls_def)

lemma remote_calls_detect_faces: "remote_calls (fst (detect_faces c b)) \<noteq> []"
  by (simp add: detect_faces_def Let_def split: sum.splits)

lemma remote_calls_analyze:
  assumes "imencode env frm = Inr (ok, ndarray buffer)"
  shows "remote_calls (fst (analyze env frm c)) \<noteq> []"
  using assms remote_calls_detect_faces [of "service env" buffer]
  by (auto simp: analyze_def encode_image_def Let_def split: sum.splits prod.splits)

text \<open>The chain of lines 162 to 167, branch by branch.\<close>

lemma decide_trigger_cases:
  "decide_trigger key c n =
     (if key = ord_space then Inr (Analyze True)
      else if n = 0 then Inl ZeroDivisionError
      else if c mod n = 0 then Inr (Analyze True)
      else if key = ord_q then Inr Quit
      else Inr (Analyze False))"
  by (simp add: decide_trigger_def py_mod_def)

text \<open>An iteration that reads a frame and does not analyze it shows it and goes on.\<close>

lemma tick_pass_through:
  assumes "cap_read env = Inr (True, frm)"
    and "decide_trigger (waitKey env AND 0xFF) (frame_count st + 1) n = Inr (Analyze a)"
    and "\<not> (a \<and> 2 < time_now env - last_analysis_time st)"
  shows "tick n st env =
           ([imshow (add_instructions frm (frame_count st + 1))],
            st\<lparr>frame_count := frame_count st + 1\<rparr>, Next)"
  using assms by (auto simp: tick_def Let_def)

text \<open>An iteration that reads a frame and analyzes it ends as the analysis does.\<close>

lemma tick_analyze:
  assumes "cap_read env = Inr (True, frm)"
    and "decide_trigger (waitKey env AND 0xFF) (frame_count st + 1) n = Inr (Analyze True)"
    and "2 < time_now env - last_analysis_time st"
  shows "tick n st env =
           (case analyze env frm (frame_count st + 1) of
              (ev, Inl e) \<Rightarrow> (ev, st\<lparr>frame_count := frame_count st + 1\<rparr>, Raise e)
            | (ev, Inr frm') \<Rightarrow>
                (ev @ [imshow (add_instructions frm' (frame_count st + 1))],
                 st\<lparr>frame_count := frame_count st + 1, last_analysis_time := time_now env\<rparr>,
                 Next))"
  using assms by (auto simp: tick_def Let_def split: prod.splits sum.splits)

text \<open>The other ways an iteration ends.\<close>

lemma tick_read_raises:
  assumes "cap_read env = Inl e"
  shows "tick n st env = ([], st, Raise e)"
  using assms by (simp add: tick_def)

lemma tick_no_frame:
  assumes "cap_read env = Inr (False, frm)"
  shows "tick n st env = ([print CouldNotReadFrame], st, Break)"
  using assms by (simp add: tick_def)

lemma tick_decide_raises:
  assumes "cap_read env = Inr (True, frm)"
    and "decide_trigger (waitKey env AND 0xFF) (frame_count st + 1) n = Inl e"
  shows "tick n st env = ([], st\<lparr>frame_count := frame_count st + 1\<rparr>, Raise e)"
  using assms by (simp add: tick_def Let_def)

lemma tick_quit:
  assumes "cap_read env = Inr (True, frm)"
    and "decide_trigger (waitKey env AND 0xFF) (frame_count st + 1) n = Inr Quit"
  shows "tick n st env = ([], st\<lparr>frame_count := frame_count st + 1\<rparr>, Break)"
  using assms by (simp add: tick_def Let_def)

text \<open>Every iteration ends in one of the six ways.\<close>

lemma tick_cases:
  obtains
    (read_raises) e where "cap_read env = Inl e"
  | (no_frame) frm where "cap_read env = Inr (False, frm)"
  | (decide_raises) frm e where "cap_read env = Inr (True, frm)"
      and "decide_trigger (waitKey env AND 0xFF) (frame_count st + 1) n = Inl e"
  | (quit) frm where "cap_read env = Inr (True, frm)"
      and "decide_trigger (waitKey env AND 0xFF) (frame_count st + 1) n = Inr Quit"
  | (pass_through) frm a where "cap_read env = Inr (True, frm)"
      and "decide_trigger (waitKey env AND 0xFF) (frame_count st + 1) n = Inr (Analyze a)"
      and "\<not> (a \<and> 2 < time_now env - last_analysis_time st)"
  | (analysis) frm where "cap_read env = Inr (True, frm)"
      and "decide_trigger (waitKey env AND 0xFF) (frame_count st + 1) n = Inr (Analyze True)"
      and "2 < time_now env - last_analysis_time st"
proof (cases "cap_read env")
  case (Inl e)
  then show ?thesis by (rule read_raises)
next
  case (Inr rf)
  then obtain ret frm where read: "cap_read env = Inr (ret, frm)" by (cases rf) simp
  show ?thesis
  proof (cases ret)
    case False
    with read show ?thesis by (auto intro: no_frame)
  next
    case True
    with read have read': "cap_read env = Inr (True, frm)" by simp
    show ?thesis
    proof (cases "decide_trigger (waitKey env AND 0xFF) (frame_count st + 1) n")
      case (Inl e)
      with read' show ?thesis by (rule decide_raises)
    next
      case (Inr t)
      show ?thesis
      proof (cases t)
        case Quit
        with Inr read' show ?thesis by (auto intro: quit)
      next
        case (Analyze a)
        show ?thesis
        proof (cases "a \<and> 2 < time_now env - last_analysis_time st")
          case False
          with Inr Analyze read' show ?thesis by (auto intro: pass_through)
        next
          case True
          with Inr Analyze read' show ?thesis by (auto intro: analysis)
        qed
      qed
    qed
  qed
qed

subsection \<open>The trigger rule and the rate limit\<close>

text \<open>
  Claim C1, as the specification states it: an analysis is performed if and only if the
  trigger fires and at least two seconds have passed since the last analysis. The source
  compares with \<^verbatim>\<open>> 2\<close>: when exactly two seconds have passed, a manual trigger makes no
  remote call.
\<close>

theorem trigger_at_two_seconds_counterexample:
  "waitKey (env0\<lparr>waitKey := 32, time_now := 2\<rparr>) AND 0xFF = ord_space
   \<and> 2 \<le> time_now (env0\<lparr>waitKey := 32, time_now := 2\<rparr>) - last_analysis_time st0
   \<and> remote_calls (fst (tick 30 st0 (env0\<lparr>waitKey := 32, time_now := 2\<rparr>))) = []"
  by (simp add: example_defs tick_defs)

text \<open>
  Claim C1, amended: on an iteration that reads a frame which the encoder encodes,
  remote calls are made if and only if the key is the space bar or the cadence is not
  zero and divides the frame count (the count of this frame, from one), and more than
  two seconds have passed since the last analysis. When the trigger fires within the
  two seconds, the iteration only shows the frame with its two captions and goes on,
  the timestamp unchanged.
\<close>

theorem trigger_rule:
  assumes "cap_read env = Inr (True, frm)" and "imencode env frm = Inr (True, ndarray buffer)"
  shows "(remote_calls (fst (tick n st env)) \<noteq> [] \<longleftrightarrow>
            (waitKey env AND 0xFF = ord_space \<or> (n \<noteq> 0 \<and> (frame_count st + 1) mod n = 0))
            \<and> 2 < time_now env - last_analysis_time st)
       \<and> ((waitKey env AND 0xFF = ord_space \<or> (n \<noteq> 0 \<and> (frame_count st + 1) mod n = 0))
            \<and> \<not> 2 < time_now env - last_analysis_time st \<longrightarrow>
           tick n st env =
             ([imshow (add_instructions frm (frame_count st + 1))],
              st\<lparr>frame_count := frame_count st + 1\<rparr>, Next))"
proof -
  let ?key = "waitKey env AND 0xFF" and ?c = "frame_count st + 1"
  let ?fires = "?key = ord_space \<or> (n \<noteq> 0 \<and> ?c mod n = 0)"
  let ?late = "2 < time_now env - last_analysis_time st"
  have fires: "decide_trigger ?key ?c n = Inr (Analyze True)" if "?fires"
    using that by (auto simp: decide_trigger_cases)
  have A: "remote_calls (fst (tick n st env)) \<noteq> []" if "?fires" "?late"
    using tick_analyze [OF assms(1) fires [OF that(1)] that(2)]
      remote_calls_analyze [OF assms(2), of ?c]
    by (auto split: prod.splits sum.splits)
  have B: "tick n st env =
             ([imshow (add_instructions frm ?c)], st\<lparr>frame_count := ?c\<rparr>, Next)"
    if "?fires" "\<not> ?late"
    using tick_pass_through [OF assms(1) fires [OF that(1)]] that(2) by simp
  have C: "remote_calls (fst (tick n st env)) = []" if "\<not> ?fires"
    using that assms(1) by (auto simp: tick_def Let_def decide_trigger_cases)
  from A B C show ?thesis by (cases "?fires"; cases "?late") auto
qed

theorem trigger_rule_witness:
  "cap_read (env0\<lparr>waitKey := 32\<rparr>) = Inr (True, frame0)
   \<and> imencode (env0\<lparr>waitKey := 32\<rparr>) frame0 = Inr (True, ndarray [255, 216])
   \<and> 2 < time_now (env0\<lparr>waitKey := 32\<rparr>) - last_analysis_time st0
   \<and> remote_calls (fst (tick 30 st0 (env0\<lparr>waitKey := 32\<rparr>))) \<noteq> []
   \<and> \<not> 2 < time_now (env0\<lparr>waitKey := 32, time_now := 1\<rparr>) - last_analysis_time st0
   \<and> tick 30 st0 (env0\<lparr>waitKey := 32, time_now := 1\<rparr>) =
       ([imshow (add_instructions frame0 1)], st0\<lparr>frame_count := 1\<rparr>, Next)"
  using trigger_rule [of "env0\<lparr>waitKey := 32\<rparr>" frame0 "[255, 216]" 30 st0]
    trigger_rule [of "env0\<lparr>waitKey := 32, time_now := 1\<rparr>" frame0 "[255, 216]" 30 st0]
  by (simp add: example_defs ord_space_def)

subsection \<open>The overlay\<close>

text \<open>
  Claim C8: with no faces to draw, \<^verbatim>\<open>draw_face_boxes\<close> returns the frame as it was
  given, with no drawing call applied, and does not raise.
\<close>

theorem render_empty_unchanged: "draw_face_boxes frm [] = Inr frm"
  by simp

lemma left_0_012: "int_of_product (round_double (3 / 250)) 640 = Inr 7"
  by (simp add: int_of_product_def py_int_def double_defs)

lemma nearest_0_012: "round (round_double (3 / 250) * 640) = 8"
  by (simp add: round_def double_defs)

text \<open>
  Claim C9, as the specification states it: the products are converted to the nearest
  pixel. The source converts with \<^verbatim>\<open>int\<close>, which truncates: a box whose left edge is
  at the double 0.012 of a width of 640 starts at pixel 7, and the nearest pixel to
  the product, 7.68, is 8.
\<close>

theorem nearest_pixel_counterexample:
  "box_pixels \<lparr>Left = round_double (3 / 250), Top = round_double (1 / 5),
                Width = round_double (3 / 10), Height = round_double (2 / 5)\<rparr> (480, 640)
     = Inr (7, 96, 192, 192)
   \<and> round (round_double (3 / 250) * 640) = 8"
  unfolding box_pixels_def
  by (simp add: left_0_012 nearest_0_012 top0 width0 height0 del: One_nat_def)

lemma box_pixels_Inr:
  assumes "box_pixels box (H, W) = Inr (x, y, w, h)"
  shows "x = py_int (round_double (Left box * real W))
       \<and> y = py_int (round_double (Top box * real H))
       \<and> w = py_int (round_double (Width box * real W))
       \<and> h = py_int (round_double (Height box * real H))"
  using assms
  by (auto simp: box_pixels_def int_of_product_def Let_def split: sum.splits if_splits)

lemma draw_face_first:
  assumes "draw_face frm face = Inr frm'"
  shows "\<exists>x y w h. box_pixels (BoundingBox face) (shape frm) = Inr (x, y, w, h)
           \<and> drawn frm' ! length (drawn frm) = rectangle (x, y) (x + w, y + h) (0, 255, 0) 2"
  using assms
  by (auto simp: draw_face_def draw_def nth_append Let_def
           split: sum.splits prod.splits if_splits option.splits)

lemma py_int_truncates: "\<bar>real_of_int (py_int v)\<bar> \<le> \<bar>v\<bar> \<and> \<bar>v - real_of_int (py_int v)\<bar> < 1"
  unfolding py_int_def by (cases "0 \<le> v") (simp_all, linarith+)

lemma draw_face_boxes_face0:
  "draw_face_boxes frame0 [face0] =
     Inr (frame0\<lparr>drawn := [rectangle (64, 96) (256, 288) (0, 255, 0) 2,
                            putText (FaceText 99) (64, 86) (5 / 10) (0, 255, 0) 1]\<rparr>)"
  by (simp add: frame0_def face0_def draw_face_def draw_def truthy_age_def box_pixels_box0)

text \<open>
  Claim C9, amended: the box of the example, on a frame 640 wide and 480 high, is drawn
  as the rectangle with corners (64, 96) and (256, 288). In general the first corner is
  \<open>(left * frame_width, top * frame_height)\<close> and the extent is
  \<open>(width * frame_width, height * frame_height)\<close>, each of the four products computed
  in double precision (rounded to the nearest double, a relative error of at most
  \<open>2^-53\<close> on a normal number) and then truncated towards zero on its own (the
  integer of no greater magnitude, less than one away); the second corner is the first
  plus the extent.
\<close>

theorem denormalize_truncates:
  assumes "draw_face frm face = Inr frm'"
    and "shape frm = (H, W)" and "BoundingBox face = box"
  shows "drawn frm' ! length (drawn frm) =
           rectangle (py_int (round_double (Left box * real W)),
                      py_int (round_double (Top box * real H)))
             (py_int (round_double (Left box * real W))
                + py_int (round_double (Width box * real W)),
              py_int (round_double (Top box * real H))
                + py_int (round_double (Height box * real H))) (0, 255, 0) 2
         \<and> \<bar>real_of_int (py_int v)\<bar> \<le> \<bar>v\<bar> \<and> \<bar>v - real_of_int (py_int v)\<bar> < 1
         \<and> (1 / 2 ^ 1022 \<le> \<bar>v\<bar> \<longrightarrow> \<bar>round_double v - v\<bar> \<le> \<bar>v\<bar> / 2 ^ 53)
         \<and> draw_face_boxes frame0 [face0] =
             Inr (frame0\<lparr>drawn := [rectangle (64, 96) (256, 288) (0, 255, 0) 2,
                                    putText (FaceText 99) (64, 86) (5 / 10) (0, 255, 0) 1]\<rparr>)"
proof -
  from draw_face_first [OF assms(1)] assms(2,3) obtain x y w h
    where box: "box_pixels box (H, W) = Inr (x, y, w, h)"
      and rect: "drawn frm' ! length (drawn frm) = rectangle (x, y) (x + w, y + h) (0, 255, 0) 2"
    by auto
  from box_pixels_Inr [OF box] rect
  have "drawn frm' ! length (drawn frm) =
           rectangle (py_int (round_double (Left box * real W)),
                      py_int (round_double (Top box * real H)))
             (py_int (round_double (Left box * real W))
                + py_int (round_double (Width box * real W)),
              py_int (round_double (Top box * real H))
                + py_int (round_double (Height box * real H))) (0, 255, 0) 2"
    by simp
  moreover have "1 / 2 ^ 1022 \<le> \<bar>v\<bar> \<longrightarrow> \<bar>round_double v - v\<bar> \<le> \<bar>v\<bar> / 2 ^ 53"
    using round_double_error [of v] by (simp add: pow2_def)
  ultimately show ?thesis
    using py_int_truncates [of v] draw_face_boxes_face0 by blast
qed

theorem denormalize_truncates_witness:
  "draw_face frame0 face0 =
     Inr (frame0\<lparr>drawn := [rectangle (64, 96) (256, 288) (0, 255, 0) 2,
                            putText (FaceText 99) (64, 86) (5 / 10) (0, 255, 0) 1]\<rparr>)
   \<and> shape frame0 = (480, 640)
   \<and> BoundingBox face0 = box0
   \<and> box_pixels box0 (480, 640) = Inr (64, 96, 192, 192)
   \<and> 1 / 2 ^ 1022 \<le> \<bar>64 :: real\<bar>
   \<and> \<bar>round_double 64 - 64\<bar> \<le> \<bar>64 :: real\<bar> / 2 ^ 53"
proof -
  have run: "draw_face frame0 face0 =
     Inr (frame0\<lparr>drawn := [rectangle (64, 96) (256, 288) (0, 255, 0) 2,
                            putText (FaceText 99) (64, 86) (5 / 10) (0, 255, 0) 1]\<rparr>)"
    by (simp add: frame0_def face0_def draw_face_def draw_def truthy_age_def box_pixels_box0)
  have shp: "shape frame0 = (480, 640)"
    by (simp add: frame0_def)
  have box: "BoundingBox face0 = box0"
    by (simp add: face0_def)
  have small: "1 / 2 ^ 1022 \<le> \<bar>64 :: real\<bar>"
    by simp
  from denormalize_truncates [OF run shp box, of 64] small run shp box box_pixels_box0
  show ?thesis by blast
qed

subsection \<open>The label request\<close>

text \<open>
  Claim C10: \<^verbatim>\<open>detect_labels\<close> asks for at most 10 labels of confidence at least 70.
  If the service honours these two parameters in its response, the list that
  \<^verbatim>\<open>detect_labels\<close> returns has at most 10 entries, each of confidence at least 70.
\<close>

theorem labels_bounded:
  assumes "\<And>response.
             client_detect_labels client
               \<lparr>labels_Image = image_bytes, MaxLabels = 10, MinConfidence = 70\<rparr> = Inr response
             \<Longrightarrow> honours_request
                   \<lparr>labels_Image = image_bytes, MaxLabels = 10, MinConfidence = 70\<rparr> response"
    and "detect_labels client image_bytes = (evs, Inr labels)"
  shows "hd evs =
           remote_detect_labels \<lparr>labels_Image = image_bytes, MaxLabels = 10, MinConfidence = 70\<rparr>
         \<and> length labels \<le> 10 \<and> (\<forall>l \<in> set labels. 70 \<le> label_Confidence l)"
  using assms
  by (auto simp: detect_labels_def honours_request_def Let_def list_all_iff
           split: sum.splits if_splits option.splits)

theorem labels_bounded_witness:
  "detect_labels service_ok [255, 216] =
     ([remote_detect_labels \<lparr>labels_Image = [255, 216], MaxLabels = 10, MinConfidence = 70\<rparr>],
      Inr [label0])
   \<and> honours_request \<lparr>labels_Image = [255, 216], MaxLabels = 10, MinConfidence = 70\<rparr>
        \<lparr>Labels = Some [label0]\<rparr>
   \<and> length [label0] \<le> 10 \<and> 70 \<le> label_Confidence label0"
proof -
  have run: "detect_labels service_ok [255, 216] =
     ([remote_detect_labels \<lparr>labels_Image = [255, 216], MaxLabels = 10, MinConfidence = 70\<rparr>],
      Inr [label0])"
    by (simp add: detect_labels_def service_ok_def)
  have hon: "honours_request \<lparr>labels_Image = [255, 216], MaxLabels = 10, MinConfidence = 70\<rparr>
        \<lparr>Labels = Some [label0]\<rparr>"
    by (simp add: honours_request_def label0_def)
  have "\<And>response.
          client_detect_labels service_ok
            \<lparr>labels_Image = [255, 216], MaxLabels = 10, MinConfidence = 70\<rparr> = Inr response
          \<Longrightarrow> honours_request
                \<lparr>labels_Image = [255, 216], MaxLabels = 10, MinConfidence = 70\<rparr> response"
    using hon by (auto simp: service_ok_def)
  from labels_bounded [OF this run] run hon show ?thesis by simp
qed

subsection \<open>The quit key\<close>

text \<open>
  Claim C2: an iteration that receives the quit key leaves the loop, also when the
  cadence fires on the same iteration. The source looks at the quit key in the last
  \<^verbatim>\<open>elif\<close> of the chain, after the cadence: with a cadence of 60, the key \<open>q\<close>
  pressed on frame 60 is consumed, the frame is analyzed and the loop goes on, while
  the same key on frame 1 leaves the loop.
\<close>

theorem quit_lost_on_cadence_tick:
  "snd (snd (tick 60 (st0\<lparr>frame_count := 59\<rparr>) (env0\<lparr>waitKey := 113\<rparr>))) = Next
   \<and> remote_calls (fst (tick 60 (st0\<lparr>frame_count := 59\<rparr>) (env0\<lparr>waitKey := 113\<rparr>))) =
       [remote_detect_faces \<lparr>faces_Image = [255, 216], Attributes = [''ALL'']\<rparr>,
        remote_detect_labels \<lparr>labels_Image = [255, 216], MaxLabels = 10, MinConfidence = 70\<rparr>]
   \<and> snd (snd (tick 60 st0 (env0\<lparr>waitKey := 113\<rparr>))) = Break"
  by (simp add: example_defs tick_defs)

subsection \<open>A cadence of zero or less\<close>

text \<open>
  Claim C3, as the specification states it: with a cadence of zero or less the
  periodic trigger is off and no division error is raised. The source evaluates
  \<^verbatim>\<open>frame_count % analyze_every_n_frames\<close> whatever the cadence: a cadence of zero raises
  on the first iteration without the space bar, and a cadence of -30 fires on frame 30.
\<close>

theorem cadence_not_positive_counterexample:
  "snd (snd (tick 0 st0 env0)) = Raise ZeroDivisionError
   \<and> remote_calls (fst (tick (- 30) (st0\<lparr>frame_count := 29\<rparr>) env0)) \<noteq> []"
  by (simp add: example_defs tick_defs)

text \<open>
  Claim C3, amended: with a negative cadence the decision raises no division error,
  and the periodic trigger stays on: it fires on the frames whose count the cadence
  divides. With a cadence of zero, an iteration that reads a frame without the manual
  trigger ends with \<open>ZeroDivisionError\<close>, the frame not shown; with the manual trigger
  the modulo is not evaluated and the frame is to be analyzed.
\<close>

theorem cadence_not_positive:
  assumes "cap_read env = Inr (True, frm)"
  shows "(n < 0 \<longrightarrow>
            decide_trigger key c n \<noteq> Inl e
            \<and> (decide_trigger key c n = Inr (Analyze True) \<longleftrightarrow> key = ord_space \<or> n dvd c))
       \<and> (n = 0 \<and> waitKey env AND 0xFF \<noteq> ord_space \<longrightarrow>
            tick n st env = ([], st\<lparr>frame_count := frame_count st + 1\<rparr>, Raise ZeroDivisionError))
       \<and> (n = 0 \<and> key = ord_space \<longrightarrow> decide_trigger key c n = Inr (Analyze True))"
proof -
  have "tick 0 st env = ([], st\<lparr>frame_count := frame_count st + 1\<rparr>, Raise ZeroDivisionError)"
    if "waitKey env AND 0xFF \<noteq> ord_space"
    using that assms by (simp add: tick_def Let_def decide_trigger_cases)
  moreover have "decide_trigger key c n \<noteq> Inl e
      \<and> (decide_trigger key c n = Inr (Analyze True) \<longleftrightarrow> key = ord_space \<or> n dvd c)"
    if "n < 0"
    using that by (auto simp: decide_trigger_cases dvd_eq_mod_eq_0)
  ultimately show ?thesis by (auto simp: decide_trigger_cases)
qed

theorem cadence_not_positive_witness:
  "cap_read env0 = Inr (True, frame0)
   \<and> decide_trigger 255 30 (- 30) = Inr (Analyze True)
   \<and> waitKey env0 AND 0xFF \<noteq> ord_space
   \<and> tick 0 st0 env0 = ([], st0\<lparr>frame_count := 1\<rparr>, Raise ZeroDivisionError)
   \<and> decide_trigger ord_space 1 0 = Inr (Analyze True)"
  using cadence_not_positive [of env0 frame0 "- 30" 255 30 ZeroDivisionError st0]
    cadence_not_positive [of env0 frame0 0 ord_space 1 ZeroDivisionError st0]
  by (simp add: example_defs ord_space_def)

subsection \<open>The timestamp of the last analysis\<close>

lemma analyzing_in_analyze: "print (AnalyzingFrame c) \<in> set (fst (analyze env frm c))"
  by (auto simp: analyze_def Let_def split: sum.splits prod.splits)

text \<open>
  Claim C4, as the specification states it: the timestamp advances only when the remote
  call succeeded. \<^verbatim>\<open>detect_faces\<close> and \<^verbatim>\<open>detect_labels\<close> turn a \<open>ClientError\<close> into an
  empty list, and the loop sets the timestamp after every analysis that did not raise:
  with both remote calls failing, the timestamp still moves from 0 to 10.
\<close>

theorem timestamp_after_failure_counterexample:
  "client_detect_faces (service (env0\<lparr>waitKey := 32, service := service_failing ClientError\<rparr>))
     \<lparr>faces_Image = [255, 216], Attributes = [''ALL'']\<rparr> = Inl ClientError
   \<and> client_detect_labels (service (env0\<lparr>waitKey := 32, service := service_failing ClientError\<rparr>))
     \<lparr>labels_Image = [255, 216], MaxLabels = 10, MinConfidence = 70\<rparr> = Inl ClientError
   \<and> last_analysis_time st0 = 0
   \<and> last_analysis_time
       (fst (snd (tick 30 st0 (env0\<lparr>waitKey := 32, service := service_failing ClientError\<rparr>)))) = 10"
  by (simp add: example_defs tick_defs)

text \<open>
  Claim C4, amended: an iteration sets the timestamp to the current time exactly when
  it started an analysis and ran to its end, whether the remote calls answered or
  failed with a \<open>ClientError\<close>; an iteration that started no analysis, or that an
  exception or a \<^verbatim>\<open>break\<close> ended, leaves the timestamp unchanged.
\<close>

theorem timestamp_advance:
  assumes "tick n st env = (evs, st', c)"
  shows "last_analysis_time st' =
           (if c = Next \<and> print (AnalyzingFrame (frame_count st + 1)) \<in> set evs
            then time_now env else last_analysis_time st)"
proof (cases rule: tick_cases [where env = env and st = st and n = n])
  case (read_raises e)
  from tick_read_raises [OF this] assms show ?thesis by auto
next
  case (no_frame frm)
  from tick_no_frame [OF this] assms show ?thesis by auto
next
  case (decide_raises frm e)
  from tick_decide_raises [OF this] assms show ?thesis by auto
next
  case (quit frm)
  from tick_quit [OF this] assms show ?thesis by auto
next
  case (pass_through frm a)
  from tick_pass_through [OF this] assms show ?thesis by auto
next
  case (analysis frm)
  from tick_analyze [OF this] assms analyzing_in_analyze [of "frame_count st + 1" env frm]
  show ?thesis by (auto split: prod.splits sum.splits)
qed

theorem timestamp_advance_witness:
  "tick 30 st0 (env0\<lparr>waitKey := 32, service := service_failing ClientError\<rparr>) =
     ([print (AnalyzingFrame 1),
       remote_detect_faces \<lparr>faces_Image = [255, 216], Attributes = [''ALL'']\<rparr>,
       print ErrorDetectingFaces,
       remote_detect_labels \<lparr>labels_Image = [255, 216], MaxLabels = 10, MinConfidence = 70\<rparr>,
       print ErrorDetectingLabels, print (FrameAnalysisHeader 1), print NoFacesDetected,
       print NoObjectsDetected, print Separator, imshow (add_instructions frame0 1)],
      \<lparr>frame_count = 1, last_analysis_time = 10\<rparr>, Next)
   \<and> last_analysis_time \<lparr>frame_count = 1, last_analysis_time = 10\<rparr> = time_now env0"
proof -
  have run: "tick 30 st0 (env0\<lparr>waitKey := 32, service := service_failing ClientError\<rparr>) =
     ([print (AnalyzingFrame 1),
       remote_detect_faces \<lparr>faces_Image = [255, 216], Attributes = [''ALL'']\<rparr>,
       print ErrorDetectingFaces,
       remote_detect_labels \<lparr>labels_Image = [255, 216], MaxLabels = 10, MinConfidence = 70\<rparr>,
       print ErrorDetectingLabels, print (FrameAnalysisHeader 1), print NoFacesDetected,
       print NoObjectsDetected, print Separator, imshow (add_instructions frame0 1)],
      \<lparr>frame_count = 1, last_analysis_time = 10\<rparr>, Next)"
    by (simp add: example_defs tick_defs)
  from timestamp_advance [OF run] run show ?thesis
    by (simp add: example_defs)
qed

subsection \<open>Failures of the detection client\<close>

lemma shown_append [simp]: "shown (xs @ ys) = shown xs @ shown ys"
  by (induction xs rule: shown.induct) simp_all

lemma shown_prints [simp]: "shown (map print ms) = []"
  by (induction ms) simp_all

text \<open>
  Claim C5, as the specification states it: any failure of the detection client is
  caught and the loop goes on. The two methods catch \<open>ClientError\<close> only: an exception
  of the client library that is not a \<open>ClientError\<close> (a connection failure) leaves the
  loop on the first iteration, and the session ends with it although the camera has
  another frame.
\<close>

theorem connection_failure_counterexample:
  "snd (snd (tick 30 st0 (env0\<lparr>waitKey := 32, service := service_failing BotoCoreError\<rparr>)))
     = Raise BotoCoreError
   \<and> snd (snd (run_video_analysis 30 True 0
        [env0\<lparr>waitKey := 32, service := service_failing BotoCoreError\<rparr>, env0]))
     = Propagated BotoCoreError"
  by (simp add: run_video_analysis_def example_defs tick_defs)

lemma shown_detect_faces [simp]: "shown (fst (detect_faces c b)) = []"
  by (simp add: detect_faces_def Let_def split: sum.splits)

lemma shown_detect_labels [simp]: "shown (fst (detect_labels c b)) = []"
  by (simp add: detect_labels_def Let_def split: sum.splits)

text \<open>
  Claim C5, amended: on an iteration that analyzes a frame, a failure of the face
  detection or of the label detection that is raised as \<open>ClientError\<close> is caught in
  \<^verbatim>\<open>detect_faces\<close> or \<^verbatim>\<open>detect_labels\<close>, reported, and turned into an empty list.
  When the label detection raises nothing but a \<open>ClientError\<close>, the loop goes on to
  the next iteration: after a failed face detection the frame is shown with its two
  captions only, and after a face detection that returned faces which can be drawn
  the frame is shown with them, whether the label detection failed or not.
\<close>

theorem client_error_recovered:
  assumes "cap_read env = Inr (True, frm)"
    and "decide_trigger (waitKey env AND 0xFF) (frame_count st + 1) n = Inr (Analyze True)"
    and "2 < time_now env - last_analysis_time st"
    and "imencode env frm = Inr (True, ndarray buffer)"
    and "\<And>e. client_detect_labels (service env)
                \<lparr>labels_Image = buffer, MaxLabels = 10, MinConfidence = 70\<rparr> = Inl e
              \<Longrightarrow> e = ClientError"
  shows "(client_detect_faces (service env)
            \<lparr>faces_Image = buffer, Attributes = [''ALL'']\<rparr> = Inl ClientError \<longrightarrow>
            detect_faces (service env) buffer =
              ([remote_detect_faces \<lparr>faces_Image = buffer, Attributes = [''ALL'']\<rparr>,
                print ErrorDetectingFaces], Inr [])
            \<and> snd (snd (tick n st env)) = Next
            \<and> shown (fst (tick n st env)) = [add_instructions frm (frame_count st + 1)])
       \<and> (client_detect_labels (service env)
            \<lparr>labels_Image = buffer, MaxLabels = 10, MinConfidence = 70\<rparr> = Inl ClientError \<longrightarrow>
            detect_labels (service env) buffer =
              ([remote_detect_labels
                  \<lparr>labels_Image = buffer, MaxLabels = 10, MinConfidence = 70\<rparr>,
                print ErrorDetectingLabels], Inr []))
       \<and> (snd (detect_faces (service env) buffer) = Inr faces
            \<and> draw_face_boxes frm faces = Inr frm' \<longrightarrow>
            snd (snd (tick n st env)) = Next
            \<and> shown (fst (tick n st env)) = [add_instructions frm' (frame_count st + 1)])"
proof -
  let ?c = "frame_count st + 1"
  have "\<exists>ev2 labels. detect_labels (service env) buffer = (ev2, Inr labels)"
  proof (cases "client_detect_labels (service env)
                  \<lparr>labels_Image = buffer, MaxLabels = 10, MinConfidence = 70\<rparr>")
    case (Inl e)
    with assms(5) [of e] show ?thesis by (simp add: detect_labels_def)
  next
    case (Inr response)
    then show ?thesis by (simp add: detect_labels_def)
  qed
  then obtain ev2 labels where labels: "detect_labels (service env) buffer = (ev2, Inr labels)"
    by blast
  from shown_detect_labels [of "service env" buffer] labels have ev2: "shown ev2 = []"
    by simp
  have enc: "encode_image env frm = Inr buffer"
    using assms(4) by (simp add: encode_image_def)
  have step: "snd (snd (tick n st env)) = Next
      \<and> shown (fst (tick n st env)) = [add_instructions frm' ?c]"
    if "snd (detect_faces (service env) buffer) = Inr fs" and "draw_face_boxes frm fs = Inr frm'"
    for fs frm'
  proof -
    have "\<exists>ev1. detect_faces (service env) buffer = (ev1, Inr fs)"
      using that(1) by (cases "detect_faces (service env) buffer") simp
    then obtain ev1 where faces: "detect_faces (service env) buffer = (ev1, Inr fs)"
      by blast
    from shown_detect_faces [of "service env" buffer] faces have ev1: "shown ev1 = []"
      by simp
    have "analyze env frm ?c =
            ([print (AnalyzingFrame ?c)] @ ev1 @ ev2 @
             map print (print_detection_results fs labels ?c), Inr frm')"
      using enc faces labels that(2) by (simp add: analyze_def)
    with tick_analyze [OF assms(1-3)] ev1 ev2 show ?thesis by simp
  qed
  have A: "detect_faces (service env) buffer =
              ([remote_detect_faces \<lparr>faces_Image = buffer, Attributes = [''ALL'']\<rparr>,
                print ErrorDetectingFaces], Inr [])
            \<and> snd (snd (tick n st env)) = Next
            \<and> shown (fst (tick n st env)) = [add_instructions frm ?c]"
    if f: "client_detect_faces (service env)
            \<lparr>faces_Image = buffer, Attributes = [''ALL'']\<rparr> = Inl ClientError"
  proof -
    have df: "detect_faces (service env) buffer =
              ([remote_detect_faces \<lparr>faces_Image = buffer, Attributes = [''ALL'']\<rparr>,
                print ErrorDetectingFaces], Inr [])"
      using f by (simp add: detect_faces_def)
    then have "snd (detect_faces (service env) buffer) = Inr []" by simp
    from step [OF this, of frm] df show ?thesis by simp
  qed
  have B: "detect_labels (service env) buffer =
              ([remote_detect_labels
                  \<lparr>labels_Image = buffer, MaxLabels = 10, MinConfidence = 70\<rparr>,
                print ErrorDetectingLabels], Inr [])"
    if "client_detect_labels (service env)
            \<lparr>labels_Image = buffer, MaxLabels = 10, MinConfidence = 70\<rparr> = Inl ClientError"
    using that by (simp add: detect_labels_def)
  from A B step [of faces frm'] show ?thesis by blast
qed

theorem client_error_recovered_witness:
  "cap_read (env0\<lparr>waitKey := 32, service := service_labels_failing\<rparr>) = Inr (True, frame0)
   \<and> decide_trigger 32 1 30 = Inr (Analyze True)
   \<and> imencode (env0\<lparr>waitKey := 32, service := service_labels_failing\<rparr>) frame0
       = Inr (True, ndarray [255, 216])
   \<and> client_detect_labels service_labels_failing
        \<lparr>labels_Image = [255, 216], MaxLabels = 10, MinConfidence = 70\<rparr> = Inl ClientError
   \<and> detect_labels service_labels_failing [255, 216] =
       ([remote_detect_labels \<lparr>labels_Image = [255, 216], MaxLabels = 10, MinConfidence = 70\<rparr>,
         print ErrorDetectingLabels], Inr [])
   \<and> snd (detect_faces service_labels_failing [255, 216]) = Inr [face0]
   \<and> snd (snd (tick 30 st0 (env0\<lparr>waitKey := 32, service := service_labels_failing\<rparr>))) = Next
   \<and> client_detect_faces (service_failing ClientError)
        \<lparr>faces_Image = [255, 216], Attributes = [''ALL'']\<rparr> = Inl ClientError
   \<and> snd (snd (tick 30 st0 (env0\<lparr>waitKey := 32, service := service_failing ClientError\<rparr>))) = Next
   \<and> shown (fst (tick 30 st0 (env0\<lparr>waitKey := 32, service := service_failing ClientError\<rparr>)))
       = [add_instructions frame0 1]"
proof -
  have faces: "snd (detect_faces service_labels_failing [255, 216]) = Inr [face0]"
    by (simp add: detect_faces_def service_labels_failing_def)
  have trig: "decide_trigger 32 1 30 = Inr (Analyze True)"
    by (simp add: decide_trigger_cases ord_space_def)
  note drawn0 = draw_face_boxes_face0
  have one: "snd (snd (tick 30 st0 (env0\<lparr>waitKey := 32, service := service_labels_failing\<rparr>))) = Next
    \<and> detect_labels service_labels_failing [255, 216] =
       ([remote_detect_labels \<lparr>labels_Image = [255, 216], MaxLabels = 10, MinConfidence = 70\<rparr>,
         print ErrorDetectingLabels], Inr [])"
    using client_error_recovered
      [of "env0\<lparr>waitKey := 32, service := service_labels_failing\<rparr>" frame0 st0 30
          "[255, 216]" "[face0]"
          "frame0\<lparr>drawn := [rectangle (64, 96) (256, 288) (0, 255, 0) 2,
                             putText (FaceText 99) (64, 86) (5 / 10) (0, 255, 0) 1]\<rparr>"]
      faces trig drawn0
    by (simp add: env0_def st0_def service_labels_failing_def)
  have two: "snd (snd (tick 30 st0 (env0\<lparr>waitKey := 32, service := service_failing ClientError\<rparr>))) = Next
    \<and> shown (fst (tick 30 st0 (env0\<lparr>waitKey := 32, service := service_failing ClientError\<rparr>)))
       = [add_instructions frame0 1]"
    using client_error_recovered
      [of "env0\<lparr>waitKey := 32, service := service_failing ClientError\<rparr>" frame0 st0 30
          "[255, 216]" "[]" frame0]
      trig
    by (simp add: env0_def st0_def service_failing_def)
  from one two faces trig show ?thesis
    by (simp add: env0_def service_labels_failing_def service_failing_def)
qed

subsection \<open>Teardown\<close>

lemma tick_next_read:
  assumes "snd (snd (tick n st env)) = Next"
  shows "\<exists>frm. cap_read env = Inr (True, frm)"
proof (cases rule: tick_cases [where env = env and st = st and n = n])
  case (read_raises e)
  from tick_read_raises [OF this] assms show ?thesis by simp
next
  case (no_frame frm)
  from tick_no_frame [OF this] assms show ?thesis by simp
qed auto

lemma while_loop_pending:
  assumes "while_loop n st envs = (evs, st', Pending)"
  shows "\<forall>env \<in> set envs. \<exists>frm. cap_read env = Inr (True, frm)"
  using assms
proof (induction envs arbitrary: st evs)
  case Nil
  then show ?case by simp
next
  case (Cons env envs)
  obtain ev st1 c where t: "tick n st env = (ev, st1, c)" by (cases "tick n st env")
  with Cons.prems have c: "c = Next"
    by (cases c) (auto split: prod.splits)
  with t have "\<exists>frm. cap_read env = Inr (True, frm)"
    using tick_next_read [of n st env] by simp
  moreover from Cons.prems t c obtain evs' where "while_loop n st1 envs = (evs', st', Pending)"
    by (auto split: prod.splits)
  from Cons.IH [OF this] have "\<forall>env \<in> set envs. \<exists>frm. cap_read env = Inr (True, frm)" .
  ultimately show ?case by simp
qed

text \<open>
  Claim C6, as the specification states it: teardown reports the total number of
  frames processed. The \<^verbatim>\<open>finally\<close> block prints one fixed message: a session that
  reads one frame and receives the quit key prints the four lines of the start and the
  line of the clean-up, none of which carries a frame count, and shows no frame.
\<close>

theorem no_frame_total_counterexample:
  "run_video_analysis 60 True 0 [env0\<lparr>waitKey := 113\<rparr>] =
     ([print WebcamInitialized, print StartingVideoAnalysis, print PressQToQuitSpaceToAnalyze,
       print (AutomaticAnalysisEvery 60),
       cap_release, destroyAllWindows, print ResourcesCleanedUp],
      \<lparr>frame_count = 1, last_analysis_time = 0\<rparr>, Returned)
   \<and> printed_frame_counts (fst (run_video_analysis 60 True 0 [env0\<lparr>waitKey := 113\<rparr>])) = []
   \<and> shown (fst (run_video_analysis 60 True 0 [env0\<lparr>waitKey := 113\<rparr>])) = []"
  by (simp add: run_video_analysis_def cleanup_def example_defs tick_defs)

text \<open>
  Claim C6, amended: once the camera is open, every way out of the session (the quit
  key, a frame that cannot be read, an interruption, any other exception) runs the
  teardown: the last three things the session does are to release the camera, to
  destroy the windows and to print that the resources are cleaned up. A session whose
  camera stops delivering frames, or is interrupted while reading one, does end.
\<close>

theorem teardown_on_exit:
  assumes "run_video_analysis n True t0 envs = (evs, st, r)"
  shows "(r \<noteq> Running \<longrightarrow>
            (\<exists>pre. evs = pre @ [cap_release, destroyAllWindows, print ResourcesCleanedUp]))
       \<and> ((\<exists>env \<in> set envs. \<forall>frm. cap_read env \<noteq> Inr (True, frm)) \<longrightarrow> r \<noteq> Running)"
proof -
  obtain evs' st' le
    where loop: "while_loop n \<lparr>frame_count = 0, last_analysis_time = t0\<rparr> envs = (evs', st', le)"
    by (cases "while_loop n \<lparr>frame_count = 0, last_analysis_time = t0\<rparr> envs")
  have "\<exists>pre. evs = pre @ [cap_release, destroyAllWindows, print ResourcesCleanedUp]"
    if "r \<noteq> Running"
  proof (cases le)
    case Pending
    with assms loop that show ?thesis by (simp add: run_video_analysis_def)
  next
    case Exited
    with assms loop have "evs = ([print WebcamInitialized, print StartingVideoAnalysis,
        print PressQToQuitSpaceToAnalyze, print (AutomaticAnalysisEvery n)] @ evs')
        @ [cap_release, destroyAllWindows, print ResourcesCleanedUp]"
      by (simp add: run_video_analysis_def cleanup_def)
    then show ?thesis by blast
  next
    case (Raised e)
    with assms loop have "evs = ([print WebcamInitialized, print StartingVideoAnalysis,
        print PressQToQuitSpaceToAnalyze, print (AutomaticAnalysisEvery n)] @ evs'
        @ (if e = KeyboardInterrupt then [print AnalysisStoppedByUser] else []))
        @ [cap_release, destroyAllWindows, print ResourcesCleanedUp]"
      by (cases "e = KeyboardInterrupt") (auto simp: run_video_analysis_def cleanup_def)
    then show ?thesis by blast
  qed
  moreover have "r \<noteq> Running" if "\<exists>env \<in> set envs. \<forall>frm. cap_read env \<noteq> Inr (True, frm)"
  proof
    assume "r = Running"
    with assms loop have "le = Pending"
      by (cases le) (auto simp: run_video_analysis_def Let_def split: if_splits)
    with loop while_loop_pending that show False by blast
  qed
  ultimately show ?thesis by blast
qed

theorem teardown_on_exit_witness:
  "run_video_analysis 60 True 0 [env0, env0\<lparr>cap_read := Inl KeyboardInterrupt\<rparr>] =
     ([print WebcamInitialized, print StartingVideoAnalysis, print PressQToQuitSpaceToAnalyze,
       print (AutomaticAnalysisEvery 60), imshow (add_instructions frame0 1),
       print AnalysisStoppedByUser]
      @ [cap_release, destroyAllWindows, print ResourcesCleanedUp],
      \<lparr>frame_count = 1, last_analysis_time = 0\<rparr>, Returned)
   \<and> cap_read (env0\<lparr>cap_read := Inl KeyboardInterrupt\<rparr>) \<noteq> Inr (True, frame0)
   \<and> Returned \<noteq> Running"
proof -
  have run: "run_video_analysis 60 True 0 [env0, env0\<lparr>cap_read := Inl KeyboardInterrupt\<rparr>] =
     ([print WebcamInitialized, print StartingVideoAnalysis, print PressQToQuitSpaceToAnalyze,
       print (AutomaticAnalysisEvery 60), imshow (add_instructions frame0 1),
       print AnalysisStoppedByUser]
      @ [cap_release, destroyAllWindows, print ResourcesCleanedUp],
      \<lparr>frame_count = 1, last_analysis_time = 0\<rparr>, Returned)"
    by (simp add: run_video_analysis_def cleanup_def example_defs tick_defs)
  from teardown_on_exit [OF run] run show ?thesis
    by (simp add: example_defs)
qed

subsection \<open>Failures of the encoder\<close>

text \<open>
  Claim C7, as the specification states it: a failure to encode the frame skips the
  analysis of that iteration, the raw frame is shown and the loop goes on. Nothing
  in the loop catches the exception of the encoder: the session ends on the first
  iteration, no frame shown, although the camera has another frame.
\<close>

theorem encoder_failure_counterexample:
  "run_video_analysis 60 True 0 [env0\<lparr>waitKey := 32, imencode := imencode_raising\<rparr>, env0] =
     ([print WebcamInitialized, print StartingVideoAnalysis, print PressQToQuitSpaceToAnalyze,
       print (AutomaticAnalysisEvery 60), print (AnalyzingFrame 1),
       cap_release, destroyAllWindows, print ResourcesCleanedUp],
      \<lparr>frame_count = 1, last_analysis_time = 0\<rparr>, Propagated cv2_error)
   \<and> shown (fst (run_video_analysis 60 True 0
        [env0\<lparr>waitKey := 32, imencode := imencode_raising\<rparr>, env0])) = []"
  by (simp add: run_video_analysis_def cleanup_def example_defs tick_defs)

text \<open>
  Claim C7, amended: on an iteration that analyzes a frame, an exception raised by the
  encoder is not recovered: the iteration ends with it after announcing the analysis,
  without a remote call and without showing the frame, and the loop ends with it
  whatever the camera would deliver next.
\<close>

theorem encoder_exception_leaves_loop:
  assumes "cap_read env = Inr (True, frm)"
    and "decide_trigger (waitKey env AND 0xFF) (frame_count st + 1) n = Inr (Analyze True)"
    and "2 < time_now env - last_analysis_time st"
    and "imencode env frm = Inl e"
  shows "tick n st env =
           ([print (AnalyzingFrame (frame_count st + 1))],
            st\<lparr>frame_count := frame_count st + 1\<rparr>, Raise e)
         \<and> while_loop n st (env # envs) =
           ([print (AnalyzingFrame (frame_count st + 1))],
            st\<lparr>frame_count := frame_count st + 1\<rparr>, Raised e)"
proof -
  have "analyze env frm (frame_count st + 1) =
          ([print (AnalyzingFrame (frame_count st + 1))], Inl e)"
    using assms(4) by (simp add: analyze_def encode_image_def)
  with tick_analyze [OF assms(1-3)] show ?thesis by simp
qed

theorem encoder_exception_leaves_loop_witness:
  "cap_read (env0\<lparr>waitKey := 32, imencode := imencode_raising\<rparr>) = Inr (True, frame0)
   \<and> decide_trigger 32 1 60 = Inr (Analyze True)
   \<and> imencode (env0\<lparr>waitKey := 32, imencode := imencode_raising\<rparr>) frame0 = Inl cv2_error
   \<and> while_loop 60 st0 [env0\<lparr>waitKey := 32, imencode := imencode_raising\<rparr>, env0] =
       ([print (AnalyzingFrame 1)], st0\<lparr>frame_count := 1\<rparr>, Raised cv2_error)"
  using encoder_exception_leaves_loop
    [of "env0\<lparr>waitKey := 32, imencode := imencode_raising\<rparr>" frame0 st0 60 cv2_error "[env0]"]
  by (simp add: example_defs decide_trigger_cases ord_space_def)

end
